theory Spec2Isabelle
  imports Main
begin

section \<open>Strings, exceptions and character tables\<close>

text \<open>
  A Python \<^verbatim>\<open>str\<close> is a sequence of Unicode code points; it is modelled as a list of
  natural numbers, one per code point.  ASCII text is written with \<open>asc\<close>, other text by
  its code points.
\<close>

type_synonym pystr = "nat list"

abbreviation asc :: "string \<Rightarrow> pystr" where
  "asc s \<equiv> map of_char s"

text \<open>
  The exceptions the program distinguishes.  All of them are subclasses of
  \<^verbatim>\<open>Exception\<close>; \<open>StaleElementReference\<close> and \<open>Timeout\<close> are the two Selenium
  exceptions the source names, \<open>DriverError\<close> stands for any other exception a driver
  call raises.
\<close>

datatype exn =
    StaleElementReference
  | Timeout
  | ValueError
  | TypeError
  | IndexError
  | DriverError

text \<open>
  Unicode decimal digits (category Nd, the class \<^verbatim>\<open>\d\<close> of a \<^verbatim>\<open>str\<close> pattern and the
  digits \<^verbatim>\<open>int\<close> accepts).  In Unicode 14 (CPython 3.11) the category consists of 66
  runs of ten consecutive code points with the values 0 to 9; \<open>nd_zeros\<close> lists the code
  point of the zero of every run.
\<close>

definition nd_zeros :: "nat list" where
  "nd_zeros =
    [0x30, 0x660, 0x6F0, 0x7C0, 0x966, 0x9E6, 0xA66, 0xAE6, 0xB66, 0xBE6, 0xC66,
     0xCE6, 0xD66, 0xDE6, 0xE50, 0xED0, 0xF20, 0x1040, 0x1090, 0x17E0, 0x1810,
     0x1946, 0x19D0, 0x1A80, 0x1A90, 0x1B50, 0x1BB0, 0x1C40, 0x1C50, 0xA620,
     0xA8D0, 0xA900, 0xA9D0, 0xA9F0, 0xAA50, 0xABF0, 0xFF10, 0x104A0, 0x10D30,
     0x11066, 0x110F0, 0x11136, 0x111D0, 0x112F0, 0x11450, 0x114D0, 0x11650,
     0x116C0, 0x11730, 0x118E0, 0x11950, 0x11C50, 0x11D50, 0x11DA0, 0x16A60,
     0x16AC0, 0x16B50, 0x1D7CE, 0x1D7D8, 0x1D7E2, 0x1D7EC, 0x1D7F6, 0x1E140,
     0x1E2F0, 0x1E950, 0x1FBF0]"

definition decimal_value :: "nat \<Rightarrow> nat option" where
  "decimal_value c =
     (case filter (\<lambda>z. z \<le> c \<and> c < z + 10) nd_zeros of
        [] \<Rightarrow> None
      | z # _ \<Rightarrow> Some (c - z))"

definition isdecimal :: "nat \<Rightarrow> bool" where
  "isdecimal c = (decimal_value c \<noteq> None)"

text \<open>Unicode whitespace (\<^verbatim>\<open>str.isspace\<close>, the class \<^verbatim>\<open>\s\<close> of a \<^verbatim>\<open>str\<close> pattern).\<close>

definition space_chars :: "nat list" where
  "space_chars =
    [0x9, 0xA, 0xB, 0xC, 0xD, 0x1C, 0x1D, 0x1E, 0x1F, 0x20, 0x85, 0xA0, 0x1680,
     0x2000, 0x2001, 0x2002, 0x2003, 0x2004, 0x2005, 0x2006, 0x2007, 0x2008,
     0x2009, 0x200A, 0x2028, 0x2029, 0x202F, 0x205F, 0x3000]"

definition isspace :: "nat \<Rightarrow> bool" where
  "isspace c = (c \<in> set space_chars)"

text \<open>
  \<open>ieq p c\<close>: the text character \<open>c\<close> matches the pattern literal \<open>p\<close> under
  \<^verbatim>\<open>re.IGNORECASE\<close>.  The table covers the literals that occur in the pattern of
  \<^verbatim>\<open>__extract_area\<close>: the lower-case Cyrillic letters U+0430 to U+044F, each matched by
  itself, by its capital (32 code points below) and by the historic letter forms the
  \<^verbatim>\<open>re\<close> module treats as equivalent, and characters without case (the superscript
  two, the full stop, the space), matched by themselves only.
\<close>

definition sre_equivalences :: "(nat \<times> nat) list" where
  "sre_equivalences =
    [(0x432, 0x1C80), (0x434, 0x1C81), (0x43E, 0x1C82), (0x441, 0x1C83),
     (0x442, 0x1C84), (0x442, 0x1C85), (0x44A, 0x1C86)]"

definition ieq :: "nat \<Rightarrow> nat \<Rightarrow> bool" where
  "ieq p c =
     (c = p \<or> (0x430 \<le> p \<and> p \<le> 0x44F \<and> c + 0x20 = p) \<or> (p, c) \<in> set sre_equivalences)"

section \<open>Area extraction: \<^verbatim>\<open>__extract_area\<close>\<close>

text \<open>
  A backtracking regular-expression engine tries the alternatives of a pattern in a
  fixed order.  A matcher maps the text at the current position to the list of the
  remaining texts after every possible match, in the order the engine tries them: the
  head of the list is the match the engine reports.
\<close>

type_synonym matcher = "pystr \<Rightarrow> pystr list"

definition m_char :: "(nat \<Rightarrow> bool) \<Rightarrow> matcher" where
  "m_char P s = (case s of [] \<Rightarrow> [] | c # cs \<Rightarrow> if P c then [cs] else [])"

text \<open>Greedy repetition of a one-character class: the longest run first.\<close>

fun m_star :: "(nat \<Rightarrow> bool) \<Rightarrow> matcher" where
  "m_star P [] = [[]]"
| "m_star P (c # cs) = (if P c then m_star P cs @ [c # cs] else [c # cs])"

definition m_plus :: "(nat \<Rightarrow> bool) \<Rightarrow> matcher" where
  "m_plus P s = (case s of [] \<Rightarrow> [] | c # cs \<Rightarrow> if P c then m_star P cs else [])"

definition m_seq :: "matcher \<Rightarrow> matcher \<Rightarrow> matcher" where
  "m_seq a b s = concat (map b (a s))"

definition m_alt :: "matcher \<Rightarrow> matcher \<Rightarrow> matcher" where
  "m_alt a b s = a s @ b s"

definition m_opt :: "matcher \<Rightarrow> matcher" where
  "m_opt a s = a s @ [s]"

fun m_lit :: "pystr \<Rightarrow> matcher" where
  "m_lit [] s = [s]"
| "m_lit (p # ps) [] = []"
| "m_lit (p # ps) (c # cs) = (if ieq p c then m_lit ps cs else [])"

text \<open>
  The pattern \<^verbatim>\<open>(\d+(?:[.,]\d+)?)\s*(m2|kv\.?m|kvadratnyh metrov)\<close> (the unit spellings
  are Cyrillic in the source; they are given here by code points).  Group 1 is
  \<open>area_number\<close>, the rest of the pattern is \<open>area_tail\<close>.
\<close>

definition unit_m2 :: pystr where
  "unit_m2 = [0x43C, 0xB2]"

definition unit_kv :: pystr where
  "unit_kv = [0x43A, 0x432]"

definition unit_m :: pystr where
  "unit_m = [0x43C]"

definition unit_long :: pystr where
  "unit_long =
    [0x43A, 0x432, 0x430, 0x434, 0x440, 0x430, 0x442, 0x43D, 0x44B, 0x445, 0x20,
     0x43C, 0x435, 0x442, 0x440, 0x43E, 0x432]"

definition area_number :: matcher where
  "area_number =
     m_seq (m_plus isdecimal)
       (m_opt (m_seq (m_char (\<lambda>c. c = 0x2E \<or> c = 0x2C)) (m_plus isdecimal)))"

definition area_unit :: matcher where
  "area_unit =
     m_alt (m_lit unit_m2)
       (m_alt (m_seq (m_lit unit_kv) (m_seq (m_opt (m_lit [0x2E])) (m_lit unit_m)))
          (m_lit unit_long))"

definition area_tail :: matcher where
  "area_tail = m_seq (m_star isspace) area_unit"

text \<open>
  \<open>match_here g t s\<close>: the text of group \<open>g\<close> in the first match of the pattern
  \<open>g\<close> followed by \<open>t\<close> at the start of \<open>s\<close>.  \<open>re_search\<close> tries every start
  position from the left, as \<^verbatim>\<open>re.search\<close> does.
\<close>

definition match_here :: "matcher \<Rightarrow> matcher \<Rightarrow> pystr \<Rightarrow> pystr option" where
  "match_here g t s =
     (case filter (\<lambda>r. t r \<noteq> []) (g s) of
        [] \<Rightarrow> None
      | r # _ \<Rightarrow> Some (take (length s - length r) s))"

fun re_search :: "matcher \<Rightarrow> matcher \<Rightarrow> pystr \<Rightarrow> pystr option" where
  "re_search g t [] = match_here g t []"
| "re_search g t (c # cs) =
     (case match_here g t (c # cs) of
        Some m \<Rightarrow> Some m
      | None \<Rightarrow> re_search g t cs)"

definition extract_area :: "pystr \<Rightarrow> pystr" where
  "extract_area text =
     (case re_search area_number area_tail text of
        Some m \<Rightarrow> m
      | None \<Rightarrow> [])"

section \<open>Integer parsing and printing\<close>

text \<open>
  \<^verbatim>\<open>int(s)\<close> for a string: surrounding whitespace is skipped, an optional sign follows,
  then decimal digits, where single underscores may separate digits.  The whitespace
  accepted is ASCII whitespace and, beyond ASCII, Unicode whitespace; the digits are the
  Unicode decimal digits.  Anything else raises \<^verbatim>\<open>ValueError\<close>.  The interpreter's
  configurable limit on the number of digits is not modelled.
\<close>

definition int_space :: "nat \<Rightarrow> bool" where
  "int_space c = (c \<in> set [0x9, 0xA, 0xB, 0xC, 0xD, 0x20] \<or> (127 \<le> c \<and> isspace c))"

fun int_digits :: "nat \<Rightarrow> pystr \<Rightarrow> nat option" where
  "int_digits acc [] = Some acc"
| "int_digits acc (c # cs) =
     (if c = 0x5F then
        (case cs of
           [] \<Rightarrow> None
         | d # ds \<Rightarrow>
             (case decimal_value d of
                None \<Rightarrow> None
              | Some v \<Rightarrow> int_digits (acc * 10 + v) ds))
      else
        (case decimal_value c of
           None \<Rightarrow> None
         | Some v \<Rightarrow> int_digits (acc * 10 + v) cs))"

definition int_body :: "pystr \<Rightarrow> nat option" where
  "int_body s =
     (case s of
        [] \<Rightarrow> None
      | c # cs \<Rightarrow>
          (case decimal_value c of
             None \<Rightarrow> None
           | Some v \<Rightarrow> int_digits v cs))"

definition int_sign :: "pystr \<Rightarrow> bool \<times> pystr" where
  "int_sign t =
     (case t of
        [] \<Rightarrow> (False, [])
      | c # cs \<Rightarrow>
          if c = 0x2D then (True, cs)
          else if c = 0x2B then (False, cs)
          else (False, c # cs))"

definition py_int :: "pystr \<Rightarrow> exn + int" where
  "py_int s =
     (case int_sign (rev (dropWhile int_space (rev (dropWhile int_space s)))) of
        (neg, b) \<Rightarrow>
          (case int_body b of
             None \<Rightarrow> Inl ValueError
           | Some n \<Rightarrow> Inr (if neg then - int n else int n)))"

text \<open>
  An attribute read from the page is a string or \<^verbatim>\<open>None\<close>; \<^verbatim>\<open>int(None)\<close> raises
  \<^verbatim>\<open>TypeError\<close>.
\<close>

definition py_int_attr :: "pystr option \<Rightarrow> exn + int" where
  "py_int_attr a = (case a of None \<Rightarrow> Inl TypeError | Some s \<Rightarrow> py_int s)"

text \<open>The decimal text of an integer, as an f-string prints it.\<close>

fun dec_digits :: "nat \<Rightarrow> pystr" where
  "dec_digits n = (if n < 10 then [0x30 + n] else dec_digits (n div 10) @ [0x30 + n mod 10])"

declare dec_digits.simps [simp del]

definition py_str :: "int \<Rightarrow> pystr" where
  "py_str k = (if k < 0 then 0x2D # dec_digits (nat (- k)) else dec_digits (nat k))"

section \<open>Pagination: \<^verbatim>\<open>get_next_page_url\<close>\<close>

text \<open>
  Two parts of \<^verbatim>\<open>urllib.parse\<close> rest on further library modules and are taken as
  parameters: \<open>unquote\<close> is \<^verbatim>\<open>unquote(s, 'utf-8', 'replace')\<close>, the percent-decoding of a
  name or value; \<open>netloc_rejected\<close> says whether \<^verbatim>\<open>urlsplit\<close> raises \<^verbatim>\<open>ValueError\<close> for a
  network location that has both square brackets (the check of the bracketed host as an
  IP literal) or a character beyond ASCII (the check under NFKC normalisation).
\<close>

record pylib =
  unquote :: "pystr \<Rightarrow> pystr"
  netloc_rejected :: "pystr \<Rightarrow> bool"

text \<open>
  The library on plain URLs: exact for a URL without percent escapes whose network
  location has no square bracket and no character beyond ASCII.
\<close>

definition lib_plain :: pylib where
  "lib_plain = \<lparr>unquote = (\<lambda>s. s), netloc_rejected = (\<lambda>n. False)\<rparr>"

definition scheme_char :: "nat \<Rightarrow> bool" where
  "scheme_char c =
     ((0x61 \<le> c \<and> c \<le> 0x7A) \<or> (0x41 \<le> c \<and> c \<le> 0x5A) \<or> (0x30 \<le> c \<and> c \<le> 0x39)
      \<or> c = 0x2B \<or> c = 0x2D \<or> c = 0x2E)"

definition ascii_alpha :: "nat \<Rightarrow> bool" where
  "ascii_alpha c = ((0x61 \<le> c \<and> c \<le> 0x7A) \<or> (0x41 \<le> c \<and> c \<le> 0x5A))"

text \<open>The URL after its scheme, when it starts with one (\<^verbatim>\<open>urlsplit\<close>).\<close>

definition strip_scheme :: "pystr \<Rightarrow> pystr" where
  "strip_scheme u =
     (let pre = takeWhile (\<lambda>c. c \<noteq> 0x3A) u in
      if 0x3A \<in> set u \<and> pre \<noteq> [] \<and> ascii_alpha (hd pre) \<and> list_all scheme_char pre
      then drop (length pre + 1) u
      else u)"

definition url_delim :: "nat \<Rightarrow> bool" where
  "url_delim c = (c = 0x2F \<or> c = 0x3F \<or> c = 0x23)"

text \<open>
  The query component of \<^verbatim>\<open>urlparse(url)\<close>, or the \<^verbatim>\<open>ValueError\<close> it raises: leading
  control characters and spaces are stripped, tabs and line breaks removed, the scheme
  and the network location split off; the fragment starts at the first \<open>#\<close> and the
  query at the first \<open>?\<close> before it.
\<close>

definition urlparse_query :: "pylib \<Rightarrow> pystr \<Rightarrow> exn + pystr" where
  "urlparse_query L url =
     (let u1 = dropWhile (\<lambda>c. c \<le> 0x20) url;
          u2 = filter (\<lambda>c. c \<noteq> 0x9 \<and> c \<noteq> 0xD \<and> c \<noteq> 0xA) u1;
          u3 = strip_scheme u2;
          has_netloc = (take 2 u3 = [0x2F, 0x2F]);
          netloc = (if has_netloc then takeWhile (\<lambda>c. \<not> url_delim c) (drop 2 u3) else []);
          rest = (if has_netloc then dropWhile (\<lambda>c. \<not> url_delim c) (drop 2 u3) else u3);
          lb = (0x5B \<in> set netloc);
          rb = (0x5D \<in> set netloc);
          path_query = takeWhile (\<lambda>c. c \<noteq> 0x23) rest
      in
        if lb \<noteq> rb then Inl ValueError
        else if ((lb \<and> rb) \<or> (\<exists>c \<in> set netloc. 128 \<le> c)) \<and> netloc_rejected L netloc
        then Inl ValueError
        else Inr (drop 1 (dropWhile (\<lambda>c. c \<noteq> 0x3F) path_query)))"

fun split_on :: "nat \<Rightarrow> pystr \<Rightarrow> pystr list" where
  "split_on d [] = [[]]"
| "split_on d (c # cs) =
     (if c = d then [] # split_on d cs
      else (case split_on d cs of
              [] \<Rightarrow> [[c]]
            | x # xs \<Rightarrow> (c # x) # xs))"

definition unquote_plus :: "pylib \<Rightarrow> pystr \<Rightarrow> pystr" where
  "unquote_plus L s = unquote L (map (\<lambda>c. if c = 0x2B then 0x20 else c) s)"

text \<open>
  \<^verbatim>\<open>parse_qsl(qs)\<close> with the default arguments: the fields are separated by \<open>&\<close>; an
  empty field and a field whose value (the text after its first \<open>=\<close>) is empty are
  dropped.
\<close>

definition parse_field :: "pylib \<Rightarrow> pystr \<Rightarrow> (pystr \<times> pystr) list" where
  "parse_field L nv =
     (let name = takeWhile (\<lambda>c. c \<noteq> 0x3D) nv;
          val = drop 1 (dropWhile (\<lambda>c. c \<noteq> 0x3D) nv)
      in if nv \<noteq> [] \<and> val \<noteq> [] then [(unquote_plus L name, unquote_plus L val)] else [])"

definition parse_qsl :: "pylib \<Rightarrow> pystr \<Rightarrow> (pystr \<times> pystr) list" where
  "parse_qsl L qs = concat (map (parse_field L) (split_on 0x26 qs))"

text \<open>
  \<^verbatim>\<open>parse_qs(qs)\<close> is a dictionary from each name to the list of its values in order;
  \<open>parse_qs L qs k\<close> is the entry of the key \<open>k\<close>.
\<close>

definition parse_qs :: "pylib \<Rightarrow> pystr \<Rightarrow> pystr \<Rightarrow> pystr list option" where
  "parse_qs L qs k =
     (case map snd (filter (\<lambda>nv. fst nv = k) (parse_qsl L qs)) of
        [] \<Rightarrow> None
      | v # vs \<Rightarrow> Some (v # vs))"

text \<open>
  \<^verbatim>\<open>current_page = int(query_params.get('p', [1])[0])\<close>: the default list holds the
  integer 1, of which \<^verbatim>\<open>int\<close> is 1.
\<close>

definition current_page :: "pylib \<Rightarrow> pystr \<Rightarrow> exn + int" where
  "current_page L query =
     (case parse_qs L query [0x70] of
        None \<Rightarrow> Inr 1
      | Some vs \<Rightarrow> (case vs of [] \<Rightarrow> Inl IndexError | v # _ \<Rightarrow> py_int v))"

definition get_next_page_url :: "pylib \<Rightarrow> pystr \<Rightarrow> pystr \<Rightarrow> pystr" where
  "get_next_page_url L base url =
     (case urlparse_query L url of
        Inl err \<Rightarrow> url
      | Inr query \<Rightarrow>
          (case current_page L query of
             Inl err \<Rightarrow> url
           | Inr page \<Rightarrow> base @ [0x3F, 0x70, 0x3D] @ py_str (page + 1)))"

section \<open>The browser driver and the state of a run\<close>

text \<open>
  One record of output, the dictionary \<^verbatim>\<open>ad_data\<close>.  The link and the price are
  attributes of page elements, so each is a string or \<^verbatim>\<open>None\<close>.
\<close>

record ad_data =
  ad_name :: pystr
  ad_url :: "pystr option"
  ad_price :: "pystr option"
  ad_area :: pystr
  ad_date_public :: pystr
  ad_address :: pystr

text \<open>
  The browser, the clock, the random generator and the stop event are the environment of
  the program.  Its state is a value of an arbitrary type \<open>'w\<close>; every call the program
  makes is a function of that state, returning the answer or the exception raised, and the
  next state.  \<open>'e\<close> is the type of element handles.
  \<^item> \<open>drv_open\<close>: \<^verbatim>\<open>driver.open(url)\<close>;
  \<^item> \<open>drv_get_title\<close>, \<open>drv_get_current_url\<close>, \<open>drv_execute_script\<close>: the driver calls of
    these names;
  \<^item> \<open>drv_wait_titles\<close>: the wait of at most ten seconds for an ad container;
  \<^item> \<open>drv_find_titles\<close>: \<^verbatim>\<open>driver.find_elements\<close> for the ad containers;
  \<^item> \<open>el_name_text\<close>, \<open>el_description_text\<close>, \<open>el_url_href\<close>, \<open>el_price_content\<close>: the child
    of an ad container found by \<^verbatim>\<open>find_element\<close> and its text or attribute;
  \<^item> \<open>el_has_descriptions\<close>: whether \<^verbatim>\<open>find_elements\<close> finds a description in the ad;
  \<^item> \<open>drv_date_text\<close>, \<open>drv_geo_text\<close>: \<^verbatim>\<open>find_elements\<close> on a detail page and the text of
    the first element found, \<open>None\<close> when nothing is found;
  \<^item> \<open>stop_is_set\<close>: \<^verbatim>\<open>stop_event.is_set()\<close>;
  \<^item> \<open>rand_raw\<close>: the next raw value of the random generator;
  \<^item> \<open>elapse\<close>: what the passing of a number of seconds does to the environment.
\<close>

record ('w, 'e) driver =
  drv_open :: "pystr option \<Rightarrow> 'w \<Rightarrow> (exn + unit) \<times> 'w"
  drv_get_title :: "'w \<Rightarrow> (exn + pystr) \<times> 'w"
  drv_wait_titles :: "'w \<Rightarrow> (exn + unit) \<times> 'w"
  drv_execute_script :: "'w \<Rightarrow> (exn + unit) \<times> 'w"
  drv_get_current_url :: "'w \<Rightarrow> (exn + pystr) \<times> 'w"
  drv_find_titles :: "'w \<Rightarrow> (exn + 'e list) \<times> 'w"
  el_name_text :: "'e \<Rightarrow> 'w \<Rightarrow> (exn + pystr) \<times> 'w"
  el_has_descriptions :: "'e \<Rightarrow> 'w \<Rightarrow> (exn + bool) \<times> 'w"
  el_description_text :: "'e \<Rightarrow> 'w \<Rightarrow> (exn + pystr) \<times> 'w"
  el_url_href :: "'e \<Rightarrow> 'w \<Rightarrow> (exn + pystr option) \<times> 'w"
  el_price_content :: "'e \<Rightarrow> 'w \<Rightarrow> (exn + pystr option) \<times> 'w"
  drv_date_text :: "'w \<Rightarrow> (exn + pystr option) \<times> 'w"
  drv_geo_text :: "'w \<Rightarrow> (exn + pystr option) \<times> 'w"
  stop_is_set :: "'w \<Rightarrow> bool"
  rand_raw :: "'w \<Rightarrow> nat \<times> 'w"
  elapse :: "nat \<Rightarrow> 'w \<Rightarrow> 'w"

text \<open>
  What the program does to the outside, in order: navigations, sleeps, the look-ups of
  the ad containers, the files written and the release of the browser session.
\<close>

datatype event =
    Open "pystr option"
  | Sleep nat
  | FindTitles
  | WriteXml "pystr option" "ad_data list"
  | Quit

text \<open>
  The fields of an \<^verbatim>\<open>AvitoParse\<close> object, the state of the environment and the events so
  far.  \<open>has_stop_event\<close> says whether a stop event was given (it is \<^verbatim>\<open>None\<close> otherwise).
\<close>

record 'w state =
  base_url :: pystr
  url :: pystr
  count :: int
  data :: "ad_data list"
  has_stop_event :: bool
  region :: "pystr option"
  world :: 'w
  trace :: "event list"

definition call :: "('w \<Rightarrow> 'a \<times> 'w) \<Rightarrow> 'w state \<Rightarrow> 'a \<times> 'w state" where
  "call f s = (case f (world s) of (r, w) \<Rightarrow> (r, s\<lparr>world := w\<rparr>))"

definition emit :: "event \<Rightarrow> 'w state \<Rightarrow> 'w state" where
  "emit e s = s\<lparr>trace := trace s @ [e]\<rparr>"

definition driver_open ::
  "('w, 'e) driver \<Rightarrow> pystr option \<Rightarrow> 'w state \<Rightarrow> (exn + unit) \<times> 'w state" where
  "driver_open D u s = call (drv_open D u) (emit (Open u) s)"

definition find_titles :: "('w, 'e) driver \<Rightarrow> 'w state \<Rightarrow> (exn + 'e list) \<times> 'w state" where
  "find_titles D s = call (drv_find_titles D) (emit FindTitles s)"

definition time_sleep :: "('w, 'e) driver \<Rightarrow> nat \<Rightarrow> 'w state \<Rightarrow> 'w state" where
  "time_sleep D n s = emit (Sleep n) (s\<lparr>world := elapse D n (world s)\<rparr>)"

text \<open>\<^verbatim>\<open>random.randint(lo, hi)\<close>: some integer from \<open>lo\<close> to \<open>hi\<close>, both included.\<close>

definition random_randint ::
  "('w, 'e) driver \<Rightarrow> nat \<Rightarrow> nat \<Rightarrow> 'w state \<Rightarrow> nat \<times> 'w state" where
  "random_randint D lo hi s =
     (case call (rand_raw D) s of (r, s1) \<Rightarrow> (lo + r mod (hi - lo + 1), s1))"

text \<open>\<^verbatim>\<open>self.stop_event and self.stop_event.is_set()\<close>\<close>

definition stop_requested :: "('w, 'e) driver \<Rightarrow> 'w state \<Rightarrow> bool" where
  "stop_requested D s = (has_stop_event s \<and> stop_is_set D (world s))"

text \<open>\<^verbatim>\<open>sub in s\<close> for strings.\<close>

fun startswith :: "pystr \<Rightarrow> pystr \<Rightarrow> bool" where
  "startswith [] s = True"
| "startswith (p # ps) [] = False"
| "startswith (p # ps) (c # cs) = (p = c \<and> startswith ps cs)"

fun py_in :: "pystr \<Rightarrow> pystr \<Rightarrow> bool" where
  "py_in sub [] = startswith sub []"
| "py_in sub (c # cs) = (startswith sub (c # cs) \<or> py_in sub cs)"

text \<open>The page title of a soft block, sixteen Cyrillic characters (access restricted).\<close>

definition access_restricted :: pystr where
  "access_restricted =
    [0x414, 0x43E, 0x441, 0x442, 0x443, 0x43F, 0x20, 0x43E, 0x433, 0x440, 0x430,
     0x43D, 0x438, 0x447, 0x435, 0x43D]"

text \<open>
  \<^verbatim>\<open>__save_to_xml\<close>: with an empty buffer nothing is written; otherwise one file with
  all the records of the buffer.  The buffer is left as it is.  The write itself is taken
  to succeed.
\<close>

definition save_to_xml :: "'w state \<Rightarrow> 'w state" where
  "save_to_xml s = (if data s = [] then s else emit (WriteXml (region s) (data s)) s)"

section \<open>Loading a list page: \<^verbatim>\<open>__get_url\<close>\<close>

text \<open>
  The method calls itself again after a soft block (after a random sleep of 10 to 20
  seconds), after a timeout and after any other exception (after 5 seconds), without a
  bound; it returns when the ad containers are present.  A run that never returns has the
  value \<open>None\<close>.
\<close>

partial_function (option) get_url :: "('w, 'e) driver \<Rightarrow> 'w state \<Rightarrow> 'w state option" where
  "get_url D s =
     (case driver_open D (Some (url s)) s of
        (Inl e, s1) \<Rightarrow> get_url D (time_sleep D 5 s1)
      | (Inr u, s1) \<Rightarrow>
          (case call (drv_get_title D) s1 of
             (Inl e, s2) \<Rightarrow> get_url D (time_sleep D 5 s2)
           | (Inr title, s2) \<Rightarrow>
               if py_in access_restricted title then
                 (case random_randint D 10 20 s2 of
                    (n, s3) \<Rightarrow> get_url D (time_sleep D n s3))
               else
                 (case call (drv_wait_titles D) s2 of
                    (Inl e, s3) \<Rightarrow> get_url D (time_sleep D 5 s3)
                  | (Inr v, s3) \<Rightarrow> Some s3)))"

section \<open>The detail page: \<^verbatim>\<open>__parse_detail\<close>\<close>

definition text_or_empty :: "pystr option \<Rightarrow> pystr" where
  "text_or_empty t = (case t of None \<Rightarrow> [] | Some x \<Rightarrow> x)"

text \<open>
  The result is the pair of the publication date and the address.  Any exception gives
  two empty strings; a soft block is retried without a bound.
\<close>

partial_function (option) parse_detail ::
  "('w, 'e) driver \<Rightarrow> pystr option \<Rightarrow> 'w state \<Rightarrow> ((pystr \<times> pystr) \<times> 'w state) option" where
  "parse_detail D u s =
     (case driver_open D u s of
        (Inl e, s1) \<Rightarrow> Some (([], []), s1)
      | (Inr v, s1) \<Rightarrow>
          (case call (drv_get_title D) (time_sleep D 2 s1) of
             (Inl e, s2) \<Rightarrow> Some (([], []), s2)
           | (Inr title, s2) \<Rightarrow>
               if py_in access_restricted title then
                 (case random_randint D 10 20 s2 of
                    (n, s3) \<Rightarrow> parse_detail D u (time_sleep D n s3))
               else
                 (case call (drv_date_text D) s2 of
                    (Inl e, s3) \<Rightarrow> Some (([], []), s3)
                  | (Inr d, s3) \<Rightarrow>
                      (case call (drv_geo_text D) s3 of
                         (Inl e, s4) \<Rightarrow> Some (([], []), s4)
                       | (Inr g, s4) \<Rightarrow> Some ((text_or_empty d, text_or_empty g), s4)))))"

section \<open>Collecting one list page: \<^verbatim>\<open>__parse_page\<close>\<close>

definition bindE ::
  "(exn + 'a) \<times> 's \<Rightarrow> ('a \<Rightarrow> 's \<Rightarrow> (exn + 'b) \<times> 's) \<Rightarrow> (exn + 'b) \<times> 's" where
  "bindE m f = (case m of (Inl e, s) \<Rightarrow> (Inl e, s) | (Inr x, s) \<Rightarrow> f x s)"

text \<open>\<^verbatim>\<open>ads_elements[i]\<close> raises \<^verbatim>\<open>IndexError\<close> out of range.\<close>

definition py_index :: "'a list \<Rightarrow> nat \<Rightarrow> exn + 'a" where
  "py_index xs i = (if i < length xs then Inr (xs ! i) else Inl IndexError)"

text \<open>
  The description is optional: when the ad has one, an exception while it is read is
  swallowed and the description stays empty.
\<close>

definition read_description ::
  "('w, 'e) driver \<Rightarrow> 'e \<Rightarrow> 'w state \<Rightarrow> (exn + pystr) \<times> 'w state" where
  "read_description D ad s =
     (case call (el_has_descriptions D ad) s of
        (Inl e, s1) \<Rightarrow> (Inl e, s1)
      | (Inr has, s1) \<Rightarrow>
          if has then
            (case call (el_description_text D ad) s1 of
               (Inl e, s2) \<Rightarrow> (Inr [], s2)
             | (Inr t, s2) \<Rightarrow> (Inr t, s2))
          else (Inr [], s1))"

text \<open>\<^verbatim>\<open>area = extract_area(name)\<close>, and from the description when that is empty.\<close>

definition area_of :: "pystr \<Rightarrow> pystr \<Rightarrow> pystr" where
  "area_of name description =
     (if extract_area name = [] then extract_area description else extract_area name)"

text \<open>
  The first part of the body of the \<^verbatim>\<open>try\<close> (source lines 135 to 170): the ad containers
  are looked up afresh, the one at index \<open>i\<close> is read, the price is checked by \<^verbatim>\<open>int\<close>.
\<close>

definition read_summary ::
  "('w, 'e) driver \<Rightarrow> nat \<Rightarrow> 'w state \<Rightarrow> (exn + ad_data) \<times> 'w state" where
  "read_summary D i s =
     bindE (find_titles D s) (\<lambda>ads s.
     bindE (py_index ads i, s) (\<lambda>ad s.
     bindE (call (el_name_text D ad) s) (\<lambda>name s.
     bindE (read_description D ad s) (\<lambda>description s.
     bindE (call (el_url_href D ad) s) (\<lambda>href s.
     bindE (call (el_price_content D ad) s) (\<lambda>price s.
     bindE (py_int_attr price, s) (\<lambda>checked s.
       (Inr \<lparr>ad_name = name, ad_url = href, ad_price = price,
             ad_area = area_of name description,
             ad_date_public = [], ad_address = []\<rparr>, s))))))))"

text \<open>
  The last part of the body (source lines 176 to 186): the record is appended; a buffer
  of 2000 records or more is written and emptied; the driver goes back to the list page
  and the program sleeps one second.
\<close>

definition store_ad ::
  "('w, 'e) driver \<Rightarrow> pystr \<Rightarrow> ad_data \<Rightarrow> 'w state \<Rightarrow> (exn + unit) \<times> 'w state" where
  "store_ad D current_url ad s =
     (let s1 = s\<lparr>data := data s @ [ad]\<rparr>;
          s2 = (if 2000 \<le> length (data s1) then (save_to_xml s1)\<lparr>data := []\<rparr> else s1)
      in case driver_open D (Some current_url) s2 of
           (Inl e, s3) \<Rightarrow> (Inl e, s3)
         | (Inr v, s3) \<Rightarrow> (Inr (), time_sleep D 1 s3))"

text \<open>One pass through the body of the \<^verbatim>\<open>try\<close>, with the exception that leaves it.\<close>

definition attempt ::
  "('w, 'e) driver \<Rightarrow> pystr \<Rightarrow> nat \<Rightarrow> 'w state \<Rightarrow> ((exn + unit) \<times> 'w state) option" where
  "attempt D current_url i s =
     (case read_summary D i s of
        (Inl e, s1) \<Rightarrow> Some (Inl e, s1)
      | (Inr ad, s1) \<Rightarrow>
          (case parse_detail D (ad_url ad) s1 of
             None \<Rightarrow> None
           | Some ((date_public, address), s2) \<Rightarrow>
               Some (store_ad D current_url
                       (ad\<lparr>ad_date_public := date_public, ad_address := address\<rparr>) s2)))"

text \<open>
  \<^verbatim>\<open>while retries > 0\<close>: a pass that ends without exception, or with an exception other
  than the stale-element one, leaves the loop; the stale-element exception costs one
  retry and a sleep of one second.
\<close>

fun ad_retries ::
  "('w, 'e) driver \<Rightarrow> pystr \<Rightarrow> nat \<Rightarrow> nat \<Rightarrow> 'w state \<Rightarrow> 'w state option" where
  "ad_retries D current_url i 0 s = Some s"
| "ad_retries D current_url i (Suc retries) s =
     (case attempt D current_url i s of
        None \<Rightarrow> None
      | Some (Inr v, s1) \<Rightarrow> Some s1
      | Some (Inl e, s1) \<Rightarrow>
          if e = StaleElementReference
          then ad_retries D current_url i retries (time_sleep D 1 s1)
          else Some s1)"

text \<open>\<^verbatim>\<open>for i in range(len(ads_elements))\<close>, with three retries for each index.\<close>

fun for_ads ::
  "('w, 'e) driver \<Rightarrow> pystr \<Rightarrow> nat list \<Rightarrow> 'w state \<Rightarrow> 'w state option" where
  "for_ads D current_url [] s = Some s"
| "for_ads D current_url (i # is) s =
     (case ad_retries D current_url i 3 s of
        None \<Rightarrow> None
      | Some s1 \<Rightarrow> for_ads D current_url is s1)"

definition parse_page ::
  "('w, 'e) driver \<Rightarrow> 'w state \<Rightarrow> ((exn + unit) \<times> 'w state) option" where
  "parse_page D s =
     (if stop_requested D s then Some (Inr (), s)
      else
        (case call (drv_get_current_url D) s of
           (Inl e, s1) \<Rightarrow> Some (Inl e, s1)
         | (Inr current_url, s1) \<Rightarrow>
             (case find_titles D s1 of
                (Inl e, s2) \<Rightarrow> Some (Inl e, s2)
              | (Inr ads_elements, s2) \<Rightarrow>
                  if ads_elements = [] then Some (Inr (), s2)
                  else
                    (case for_ads D current_url [0..<length ads_elements] s2 of
                       None \<Rightarrow> None
                     | Some s3 \<Rightarrow> Some (Inr (), s3)))))"

section \<open>The run: \<^verbatim>\<open>__paginator\<close>, \<^verbatim>\<open>open_next_btn\<close> and \<^verbatim>\<open>parse\<close>\<close>

text \<open>Scrolling to the bottom: an exception is ignored, the sleep then skipped.\<close>

definition scroll :: "('w, 'e) driver \<Rightarrow> 'w state \<Rightarrow> 'w state" where
  "scroll D s =
     (case call (drv_execute_script D) s of
        (Inl e, s1) \<Rightarrow> s1
      | (Inr v, s1) \<Rightarrow> time_sleep D 1 s1)"

definition open_next_btn ::
  "pylib \<Rightarrow> ('w, 'e) driver \<Rightarrow> 'w state \<Rightarrow> (exn + unit) \<times> 'w state" where
  "open_next_btn L D s =
     (let s1 = s\<lparr>url := get_next_page_url L (base_url s) (url s)\<rparr>
      in driver_open D (Some (url s1)) s1)"

text \<open>
  The loop \<^verbatim>\<open>for i in range(self.count)\<close> of \<^verbatim>\<open>__paginator\<close>, by the number of
  iterations left.  An exception of \<^verbatim>\<open>__parse_page\<close> or of the navigation to the next
  page leaves the loop and the method.
\<close>

fun page_loop ::
  "pylib \<Rightarrow> ('w, 'e) driver \<Rightarrow> nat \<Rightarrow> 'w state \<Rightarrow> ((exn + unit) \<times> 'w state) option" where
  "page_loop L D 0 s = Some (Inr (), s)"
| "page_loop L D (Suc n) s =
     (if stop_requested D s then Some (Inr (), s)
      else
        (case parse_page D (scroll D s) of
           None \<Rightarrow> None
         | Some (Inl e, s1) \<Rightarrow> Some (Inl e, s1)
         | Some (Inr v, s1) \<Rightarrow>
             (case random_randint D 2 4 s1 of
                (k, s2) \<Rightarrow>
                  (case open_next_btn L D (time_sleep D k s2) of
                     (Inl e, s3) \<Rightarrow> Some (Inl e, s3)
                   | (Inr v, s3) \<Rightarrow> page_loop L D n s3))))"

definition paginator ::
  "pylib \<Rightarrow> ('w, 'e) driver \<Rightarrow> 'w state \<Rightarrow> ((exn + unit) \<times> 'w state) option" where
  "paginator L D s =
     (case page_loop L D (nat (count s)) s of
        None \<Rightarrow> None
      | Some (Inl e, s1) \<Rightarrow> Some (Inl e, s1)
      | Some (Inr v, s1) \<Rightarrow> Some (Inr (), save_to_xml s1))"

text \<open>
  \<^verbatim>\<open>parse\<close>: the browser session is a context manager, released (\<open>Quit\<close>) when the block
  is left.  An exception of the load or of the paginator is caught: the buffer, when not
  empty, is written.  The result says whether the method returns or raises.
\<close>

definition parse ::
  "pylib \<Rightarrow> ('w, 'e) driver \<Rightarrow> 'w state \<Rightarrow> ((exn + unit) \<times> 'w state) option" where
  "parse L D s =
     (case get_url D s of
        None \<Rightarrow> None
      | Some s1 \<Rightarrow>
          (case paginator L D s1 of
             None \<Rightarrow> None
           | Some (Inl e, s2) \<Rightarrow> Some (Inr (), emit Quit (save_to_xml s2))
           | Some (Inr v, s2) \<Rightarrow> Some (Inr (), emit Quit s2)))"

section \<open>Auxiliary notions and a simulated driver\<close>

fun quiet :: "event \<Rightarrow> bool" where
  "quiet (Open u) = True"
| "quiet (Sleep n) = True"
| "quiet FindTitles = False"
| "quiet (WriteXml r b) = False"
| "quiet Quit = False"

definition steps :: "'w state \<Rightarrow> event list \<Rightarrow> 'w state \<Rightarrow> bool" where
  "steps s tr s1 =
     (data s1 = data s \<and> trace s1 = trace s @ tr \<and> url s1 = url s \<and> base_url s1 = base_url s
      \<and> region s1 = region s \<and> count s1 = count s \<and> has_stop_event s1 = has_stop_event s)"

definition price_ok :: "ad_data \<Rightarrow> bool" where
  "price_ok ad = (case py_int_attr (ad_price ad) of Inl e \<Rightarrow> False | Inr k \<Rightarrow> True)"

fun written :: "event list \<Rightarrow> ad_data list" where
  "written [] = []"
| "written (WriteXml r b # es) = b @ written es"
| "written (e # es) = written es"

definition quiet_steps :: "'w state \<Rightarrow> 'w state \<Rightarrow> bool" where
  "quiet_steps s s1 = (\<exists>tr. steps s tr s1 \<and> list_all quiet tr)"

definition price_invariant :: "'w state \<Rightarrow> bool" where
  "price_invariant s = (list_all price_ok (data s) \<and> list_all price_ok (written (trace s)))"

text \<open>
  A simulated driver for examples.  Its state is a clock that counts the calls made so
  far; every call succeeds, except where the configuration says otherwise for the
  current clock value.
\<close>

record sim =
  sim_ads :: nat
  sim_price :: "pystr option"
  sim_blocked :: "nat \<Rightarrow> bool"
  sim_stale :: "nat \<Rightarrow> bool"
  sim_url_fails :: "nat \<Rightarrow> bool"
  sim_stop :: "nat \<Rightarrow> bool"

definition sim_driver :: "sim \<Rightarrow> (nat, nat) driver" where
  "sim_driver c =
     \<lparr>drv_open = (\<lambda>u w. (Inr (), Suc w)),
      drv_get_title = (\<lambda>w. (Inr (if sim_blocked c w then access_restricted else []), Suc w)),
      drv_wait_titles = (\<lambda>w. (Inr (), Suc w)),
      drv_execute_script = (\<lambda>w. (Inr (), Suc w)),
      drv_get_current_url = (\<lambda>w. (if sim_url_fails c w then Inl DriverError else Inr [0x6C], Suc w)),
      drv_find_titles =
        (\<lambda>w. (if sim_stale c w then Inl StaleElementReference else Inr [0..<sim_ads c], Suc w)),
      el_name_text = (\<lambda>e w. (Inr [], Suc w)),
      el_has_descriptions = (\<lambda>e w. (Inr False, Suc w)),
      el_description_text = (\<lambda>e w. (Inr [], Suc w)),
      el_url_href = (\<lambda>e w. (Inr (Some [0x64]), Suc w)),
      el_price_content = (\<lambda>e w. (Inr (sim_price c), Suc w)),
      drv_date_text = (\<lambda>w. (Inr None, Suc w)),
      drv_geo_text = (\<lambda>w. (Inr None, Suc w)),
      stop_is_set = sim_stop c,
      rand_raw = (\<lambda>w. (w, Suc w)),
      elapse = (\<lambda>n w. w)\<rparr>"

text \<open>The state of a run at clock \<open>w\<close>, with the events \<open>tr\<close> and the buffer \<open>d\<close>.\<close>

definition sim_at :: "nat \<Rightarrow> event list \<Rightarrow> ad_data list \<Rightarrow> nat state" where
  "sim_at w tr d =
     \<lparr>base_url = [0x62], url = [0x62], count = 2, data = d, has_stop_event = True,
      region = None, world = w, trace = tr\<rparr>"

definition sim_ad :: ad_data where
  "sim_ad = \<lparr>ad_name = [], ad_url = Some [0x64], ad_price = Some [0x37], ad_area = [],
             ad_date_public = [], ad_address = []\<rparr>"

definition sim_plain :: sim where
  "sim_plain =
     \<lparr>sim_ads = 1, sim_price = Some [0x37], sim_blocked = (\<lambda>w. False), sim_stale = (\<lambda>w. False),
      sim_url_fails = (\<lambda>w. False), sim_stop = (\<lambda>w. False)\<rparr>"

lemma steps_refl: "steps s [] s"
  by (simp add: steps_def)

lemma steps_trans: "steps s tr s1 \<Longrightarrow> steps s1 tr' s2 \<Longrightarrow> steps s (tr @ tr') s2"
  by (simp add: steps_def)

lemma call_steps: "call f s = (r, s1) \<Longrightarrow> steps s [] s1"
  by (auto simp: call_def steps_def split: prod.splits)

lemma driver_open_steps: "driver_open D u s = (r, s1) \<Longrightarrow> steps s [Open u] s1"
  by (auto simp: driver_open_def call_def emit_def steps_def split: prod.splits)

lemma find_titles_steps: "find_titles D s = (r, s1) \<Longrightarrow> steps s [FindTitles] s1"
  by (auto simp: find_titles_def call_def emit_def steps_def split: prod.splits)

lemma time_sleep_steps: "steps s [Sleep n] (time_sleep D n s)"
  by (simp add: time_sleep_def emit_def steps_def)

lemma random_randint_steps: "random_randint D lo hi s = (n, s1) \<Longrightarrow> steps s [] s1"
  by (auto simp: random_randint_def split: prod.splits dest: call_steps)

lemma random_randint_range:
  assumes "random_randint D lo hi s = (n, s1)" and "lo \<le> hi"
  shows "lo \<le> n \<and> n \<le> hi"
proof -
  from assms(1) obtain r where n: "n = lo + r mod (hi - lo + 1)"
    by (auto simp: random_randint_def split: prod.splits)
  have "r mod (hi - lo + 1) < hi - lo + 1"
    by (rule mod_less_divisor) simp
  with n assms(2) show ?thesis by linarith
qed

lemma bindE_steps:
  assumes "bindE m f = (r, s2)"
    and "steps s tr (snd m)"
    and "\<And>x s1 r' s2'. f x s1 = (r', s2') \<Longrightarrow> steps s1 [] s2'"
  shows "steps s tr s2"
proof (cases m)
  case (Pair a s1)
  show ?thesis
  proof (cases a)
    case (Inl e)
    with Pair assms(1,2) show ?thesis by (simp add: bindE_def)
  next
    case (Inr x)
    with Pair assms(1) have "f x s1 = (r, s2)" by (simp add: bindE_def)
    then have "steps s1 [] s2" by (rule assms(3))
    with Pair assms(2) show ?thesis by (auto dest: steps_trans)
  qed
qed

lemma bindE_Inr:
  "bindE m f = (Inr y, s2) \<Longrightarrow> \<exists>x s1. m = (Inr x, s1) \<and> f x s1 = (Inr y, s2)"
  by (auto simp: bindE_def split: prod.splits sum.splits)

lemma read_description_steps: "read_description D ad s = (r, s1) \<Longrightarrow> steps s [] s1"
  by (auto simp: read_description_def split: prod.splits sum.splits if_splits
           dest!: call_steps dest: steps_trans)

lemma steps_snd:
  "steps s [] (snd (call f s))"
  "steps s [FindTitles] (snd (find_titles D s))"
  "steps s [] (snd (read_description D ad s))"
proof -
  show "steps s [] (snd (call f s))"
    by (cases "call f s") (simp add: call_steps)
  show "steps s [FindTitles] (snd (find_titles D s))"
    by (cases "find_titles D s") (simp add: find_titles_steps)
  show "steps s [] (snd (read_description D ad s))"
    by (cases "read_description D ad s") (simp add: read_description_steps)
qed

lemma read_summary_steps: "read_summary D i s = (r, s1) \<Longrightarrow> steps s [FindTitles] s1"
  unfolding read_summary_def
  apply (erule bindE_steps, simp add: steps_snd steps_refl)+
  apply (simp add: steps_refl)
  done

lemma read_summary_price: "read_summary D i s = (Inr ad, s1) \<Longrightarrow> price_ok ad"
  unfolding read_summary_def
  by (auto dest!: bindE_Inr simp: price_ok_def)

lemma quiet_steps_refl: "quiet_steps s s"
  unfolding quiet_steps_def by (rule exI[of _ "[]"]) (simp add: steps_refl)

lemma quiet_steps_trans: "quiet_steps s s1 \<Longrightarrow> quiet_steps s1 s2 \<Longrightarrow> quiet_steps s s2"
  unfolding quiet_steps_def
  by (elim exE conjE, rule_tac x = "tr @ tra" in exI) (simp add: steps_trans)

lemma quiet_steps_call: "call f s = (r, s1) \<Longrightarrow> quiet_steps s s1"
  unfolding quiet_steps_def by (rule exI[of _ "[]"]) (simp add: call_steps)

lemma quiet_steps_open: "driver_open D u s = (r, s1) \<Longrightarrow> quiet_steps s s1"
  unfolding quiet_steps_def by (rule exI[of _ "[Open u]"]) (simp add: driver_open_steps)

lemma quiet_steps_sleep: "quiet_steps s (time_sleep D n s)"
  unfolding quiet_steps_def by (rule exI[of _ "[Sleep n]"]) (simp add: time_sleep_steps)

lemma quiet_steps_randint: "random_randint D lo hi s = (n, s1) \<Longrightarrow> quiet_steps s s1"
  unfolding quiet_steps_def by (rule exI[of _ "[]"]) (simp add: random_randint_steps)

lemmas step_eqs =
  call_steps[unfolded steps_def] driver_open_steps[unfolded steps_def]
  find_titles_steps[unfolded steps_def] random_randint_steps[unfolded steps_def]

lemmas sleep_eqs = time_sleep_steps[unfolded steps_def]

lemma parse_detail_quiet:
  assumes "parse_detail D u s = Some y"
  shows "quiet_steps s (snd y)"
proof (rule parse_detail.raw_induct[where P = "\<lambda>D u s y. quiet_steps s (snd y)", OF _ assms],
       goal_cases)
  case (1 pd D u s y)
  note IH = "1"(1)[unfolded quiet_steps_def steps_def]
  from "1"(2) show ?case
    unfolding quiet_steps_def steps_def
    by (auto split: prod.splits sum.splits if_splits
             dest!: step_eqs IH simp: sleep_eqs)
qed

lemma written_append: "written (a @ b) = written a @ written b"
  by (induction a rule: written.induct) simp_all

lemma written_quiet: "list_all quiet tr \<Longrightarrow> written tr = []"
  by (induction tr rule: written.induct) simp_all

lemma quiet_no_find: "list_all quiet tr \<Longrightarrow> FindTitles \<notin> set tr"
  by (induction tr) auto

lemma store_ad_result:
  assumes "store_ad D cur ad s = (r, s1)"
  shows "data s1 = (if 1999 \<le> length (data s) then [] else data s @ [ad])"
    and "trace s1 =
           trace s
           @ (if 1999 \<le> length (data s) then [WriteXml (region s) (data s @ [ad])] else [])
           @ [Open (Some cur)]
           @ (case r of Inl e \<Rightarrow> [] | Inr v \<Rightarrow> [Sleep 1])"
  using assms
  by (auto simp: store_ad_def Let_def save_to_xml_def emit_def sleep_eqs
           split: prod.splits sum.splits if_splits dest!: step_eqs)

lemma attempt_cases:
  assumes "attempt D cur i s = Some (r, s3)"
  shows "(\<exists>e. r = Inl e \<and> steps s [FindTitles] s3)
       \<or> (\<exists>ad s1 dp s2. read_summary D i s = (Inr ad, s1)
             \<and> parse_detail D (ad_url ad) s1 = Some (dp, s2)
             \<and> store_ad D cur (ad\<lparr>ad_date_public := fst dp, ad_address := snd dp\<rparr>) s2 = (r, s3))"
  using assms
  by (auto simp: attempt_def split: prod.splits sum.splits option.splits
           dest: read_summary_steps)

text \<open>what one pass does to the buffer and to the files written\<close>

lemma attempt_effect:
  assumes "attempt D cur i s = Some (r, s3)"
  shows "(data s3 = data s \<and> written (trace s3) = written (trace s))
       \<or> (\<exists>ad. price_ok ad
             \<and> data s3 = (if 1999 \<le> length (data s) then [] else data s @ [ad])
             \<and> written (trace s3) =
                 written (trace s) @ (if 1999 \<le> length (data s) then data s @ [ad] else []))"
proof -
  from attempt_cases[OF assms] show ?thesis
  proof (elim disjE exE conjE)
    fix e assume "steps s [FindTitles] s3"
    then show ?thesis by (simp add: steps_def written_append)
  next
    fix ad s1 dp s2
    assume rs: "read_summary D i s = (Inr ad, s1)"
      and pd: "parse_detail D (ad_url ad) s1 = Some (dp, s2)"
      and st: "store_ad D cur (ad\<lparr>ad_date_public := fst dp, ad_address := snd dp\<rparr>) s2 = (r, s3)"
    let ?ad = "ad\<lparr>ad_date_public := fst dp, ad_address := snd dp\<rparr>"
    from read_summary_price[OF rs] have ok: "price_ok ?ad" by (simp add: price_ok_def)
    from read_summary_steps[OF rs] have 1: "data s1 = data s" "written (trace s1) = written (trace s)"
      by (simp_all add: steps_def written_append)
    from parse_detail_quiet[OF pd] obtain tr where "steps s1 tr s2" "list_all quiet tr"
      by (auto simp: quiet_steps_def)
    then have 2: "data s2 = data s1" "written (trace s2) = written (trace s1)"
      by (simp_all add: steps_def written_append written_quiet)
    have 3: "data s3 = (if 1999 \<le> length (data s) then [] else data s @ [?ad])"
      using store_ad_result(1)[OF st] 1 2 by simp
    have 4: "written (trace s3) =
               written (trace s) @ (if 1999 \<le> length (data s) then data s @ [?ad] else [])"
      using store_ad_result(2)[OF st] 1 2 by (cases r) (simp_all add: written_append)
    from ok 3 4 show ?thesis by blast
  qed
qed

text \<open>the events of one pass\<close>

lemma attempt_trace:
  assumes "attempt D cur i s = Some (r, s3)"
  shows "\<exists>tr. trace s3 = trace s @ FindTitles # tr \<and> FindTitles \<notin> set tr
            \<and> (\<forall>v. r = Inr v \<longrightarrow> (\<exists>tr0. tr = tr0 @ [Open (Some cur), Sleep 1]))"
proof -
  from attempt_cases[OF assms] show ?thesis
  proof (elim disjE exE conjE)
    fix e assume "r = Inl e" "steps s [FindTitles] s3"
    then show ?thesis by (simp add: steps_def)
  next
    fix ad s1 dp s2
    assume rs: "read_summary D i s = (Inr ad, s1)"
      and pd: "parse_detail D (ad_url ad) s1 = Some (dp, s2)"
      and st: "store_ad D cur (ad\<lparr>ad_date_public := fst dp, ad_address := snd dp\<rparr>) s2 = (r, s3)"
    from read_summary_steps[OF rs] have 1: "trace s1 = trace s @ [FindTitles]"
      by (simp add: steps_def)
    from parse_detail_quiet[OF pd] obtain tr where 2: "trace s2 = trace s1 @ tr" "list_all quiet tr"
      by (auto simp: quiet_steps_def steps_def)
    note 3 = store_ad_result(2)[OF st]
    show ?thesis
      using 1 2 3 quiet_no_find[OF 2(2)]
      by (cases r) (auto split: if_splits)
  qed
qed

lemma attempt_price:
  assumes "attempt D cur i s = Some (r, s1)" and "price_invariant s"
  shows "price_invariant s1"
  using attempt_effect[OF assms(1)] assms(2)
  by (auto simp: price_invariant_def split: if_splits)

lemma attempt_length:
  assumes "attempt D cur i s = Some (r, s1)" and "length (data s) \<le> 2000"
  shows "length (data s1) \<le> 2000"
  using attempt_effect[OF assms(1)] assms(2)
  by (auto split: if_splits)

lemma sleep_price: "price_invariant (time_sleep D n s) = price_invariant s"
  by (simp add: price_invariant_def sleep_eqs written_append)

lemma ad_retries_price:
  "ad_retries D cur i n s = Some s1 \<Longrightarrow> price_invariant s \<Longrightarrow> price_invariant s1"
proof (induction n arbitrary: s)
  case 0
  then show ?case by simp
next
  case (Suc n)
  from Suc.prems(1) obtain r t where a: "attempt D cur i s = Some (r, t)"
    by (auto split: option.splits)
  from a Suc.prems(2) have t: "price_invariant t" by (rule attempt_price)
  show ?case
  proof (cases "r = Inl StaleElementReference")
    case True
    with a Suc.prems(1) have "ad_retries D cur i n (time_sleep D 1 t) = Some s1" by simp
    then show ?thesis using t by (rule Suc.IH[OF _ sleep_price[THEN iffD2]])
  next
    case False
    with a Suc.prems(1) have "s1 = t" by (cases r) (auto split: if_splits)
    with t show ?thesis by simp
  qed
qed

lemma ad_retries_length:
  "ad_retries D cur i n s = Some s1 \<Longrightarrow> length (data s) \<le> 2000 \<Longrightarrow> length (data s1) \<le> 2000"
proof (induction n arbitrary: s)
  case 0
  then show ?case by simp
next
  case (Suc n)
  from Suc.prems(1) obtain r t where a: "attempt D cur i s = Some (r, t)"
    by (auto split: option.splits)
  from a Suc.prems(2) have t: "length (data t) \<le> 2000" by (rule attempt_length)
  show ?case
  proof (cases "r = Inl StaleElementReference")
    case True
    with a Suc.prems(1) have "ad_retries D cur i n (time_sleep D 1 t) = Some s1" by simp
    moreover from t have "length (data (time_sleep D 1 t)) \<le> 2000" by (simp add: sleep_eqs)
    ultimately show ?thesis by (rule Suc.IH)
  next
    case False
    with a Suc.prems(1) have "s1 = t" by (cases r) (auto split: if_splits)
    with t show ?thesis by simp
  qed
qed

lemma for_ads_price:
  "for_ads D cur is s = Some s1 \<Longrightarrow> price_invariant s \<Longrightarrow> price_invariant s1"
  by (induction "is" arbitrary: s) (auto split: option.splits dest: ad_retries_price)

lemma for_ads_length:
  "for_ads D cur is s = Some s1 \<Longrightarrow> length (data s) \<le> 2000 \<Longrightarrow> length (data s1) \<le> 2000"
  by (induction "is" arbitrary: s) (auto split: option.splits dest: ad_retries_length)

lemma steps_price: "steps s tr s1 \<Longrightarrow> written tr = [] \<Longrightarrow> price_invariant s1 = price_invariant s"
  by (simp add: steps_def price_invariant_def written_append)

lemma parse_page_price:
  assumes "parse_page D s = Some (r, s1)" and "price_invariant s"
  shows "price_invariant s1"
proof (cases "stop_requested D s")
  case True
  with assms show ?thesis by (simp add: parse_page_def)
next
  case False
  obtain a t where c: "call (drv_get_current_url D) s = (a, t)" by (cases "call (drv_get_current_url D) s")
  from call_steps[OF c] assms(2) have t: "price_invariant t" by (simp add: steps_price)
  show ?thesis
  proof (cases a)
    case (Inl e)
    with False c assms(1) t show ?thesis by (simp add: parse_page_def)
  next
    case (Inr cur)
    obtain b t2 where f: "find_titles D t = (b, t2)" by (cases "find_titles D t")
    from find_titles_steps[OF f] t have t2: "price_invariant t2" by (simp add: steps_price)
    show ?thesis
    proof (cases b)
      case (Inl e)
      with False c Inr f assms(1) t2 show ?thesis by (simp add: parse_page_def)
    next
      case (Inr ads)
      with False c \<open>a = Inr cur\<close> f assms(1) t2 show ?thesis
        by (auto simp: parse_page_def split: if_splits option.splits dest: for_ads_price)
    qed
  qed
qed

lemma parse_page_length:
  assumes "parse_page D s = Some (r, s1)" and "length (data s) \<le> 2000"
  shows "length (data s1) \<le> 2000"
  using assms
  by (auto simp: parse_page_def split: if_splits prod.splits sum.splits option.splits
           dest!: step_eqs dest: for_ads_length)

lemmas prim_defs =
  call_def emit_def driver_open_def find_titles_def time_sleep_def random_randint_def
  stop_requested_def save_to_xml_def bindE_def py_index_def read_description_def
  text_or_empty_def

lemma py_int_7: "py_int [0x37] = Inr 7"
  by (simp add: py_int_def int_sign_def int_space_def isspace_def space_chars_def int_body_def
        decimal_value_def nd_zeros_def)

lemma extract_area_Nil: "extract_area [] = []"
  by (simp add: extract_area_def match_here_def area_number_def m_seq_def m_plus_def)

lemma not_blocked_Nil: "\<not> startswith access_restricted []"
  by (simp add: access_restricted_def)

lemma sim_sleep:
  "time_sleep (sim_driver c) n (sim_at w tr d) = sim_at w (tr @ [Sleep n]) d"
  by (simp add: prim_defs sim_driver_def sim_at_def)

lemma sim_read_ok:
  "\<not> sim_stale c w \<Longrightarrow> i < sim_ads c \<Longrightarrow> sim_price c = Some [0x37] \<Longrightarrow>
   read_summary (sim_driver c) i (sim_at w tr d) =
     (Inr sim_ad, sim_at (w + 5) (tr @ [FindTitles]) d)"
  by (simp add: read_summary_def prim_defs sim_driver_def sim_at_def sim_ad_def
        py_int_attr_def py_int_7 area_of_def extract_area_Nil)

lemma sim_read_stale:
  "sim_stale c w \<Longrightarrow>
   read_summary (sim_driver c) i (sim_at w tr d) =
     (Inl StaleElementReference, sim_at (w + 1) (tr @ [FindTitles]) d)"
  by (simp add: read_summary_def prim_defs sim_driver_def sim_at_def)

lemma sim_read_noprice:
  "\<not> sim_stale c w \<Longrightarrow> i < sim_ads c \<Longrightarrow> sim_price c = None \<Longrightarrow>
   read_summary (sim_driver c) i (sim_at w tr d) =
     (Inl TypeError, sim_at (w + 5) (tr @ [FindTitles]) d)"
  by (simp add: read_summary_def prim_defs sim_driver_def sim_at_def py_int_attr_def)

lemma sim_detail:
  "\<not> sim_blocked c (w + 1) \<Longrightarrow>
   parse_detail (sim_driver c) u (sim_at w tr d) =
     Some (([], []), sim_at (w + 4) (tr @ [Open u, Sleep 2]) d)"
  by (subst parse_detail.simps)
     (simp add: prim_defs sim_driver_def sim_at_def not_blocked_Nil)

lemma sim_store:
  "length d < 1999 \<Longrightarrow>
   store_ad (sim_driver c) cur ad (sim_at w tr d) =
     (Inr (), sim_at (w + 1) (tr @ [Open (Some cur), Sleep 1]) (d @ [ad]))"
  by (simp add: store_ad_def Let_def prim_defs sim_driver_def sim_at_def)

lemma sim_store_flush:
  "length d = 1999 \<Longrightarrow>
   store_ad (sim_driver c) cur ad (sim_at w tr d) =
     (Inr (), sim_at (w + 1) (tr @ [WriteXml None (d @ [ad]), Open (Some cur), Sleep 1]) [])"
  by (simp add: store_ad_def Let_def prim_defs sim_driver_def sim_at_def)

lemma sim_ad_detail: "sim_ad\<lparr>ad_date_public := [], ad_address := []\<rparr> = sim_ad"
  by (simp add: sim_ad_def)

lemma sim_attempt_ok:
  assumes "\<not> sim_stale c w" and "i < sim_ads c" and "sim_price c = Some [0x37]"
    and "\<not> sim_blocked c (w + 6)" and "length d < 1999"
  shows "attempt (sim_driver c) cur i (sim_at w tr d) =
     Some (Inr (), sim_at (w + 10)
             (tr @ [FindTitles, Open (Some [0x64]), Sleep 2, Open (Some cur), Sleep 1])
             (d @ [sim_ad]))"
proof -
  have e: "w + 5 + 1 = w + 6" by simp
  have "\<not> sim_blocked c (w + 5 + 1)" unfolding e by (rule assms(4))
  then have "parse_detail (sim_driver c) (Some [0x64]) (sim_at (w + 5) (tr @ [FindTitles]) d) =
      Some (([], []), sim_at (w + 5 + 4) ((tr @ [FindTitles]) @ [Open (Some [0x64]), Sleep 2]) d)"
    by (rule sim_detail)
  moreover have "ad_url sim_ad = Some [0x64]" by (simp add: sim_ad_def)
  ultimately show ?thesis
    using assms by (simp add: attempt_def sim_read_ok sim_store sim_ad_detail add.commute)
qed

lemma sim_attempt_stale:
  "sim_stale c w \<Longrightarrow>
   attempt (sim_driver c) cur i (sim_at w tr d) =
     Some (Inl StaleElementReference, sim_at (w + 1) (tr @ [FindTitles]) d)"
  by (simp add: attempt_def sim_read_stale)

lemma sim_attempt_noprice:
  "\<not> sim_stale c w \<Longrightarrow> i < sim_ads c \<Longrightarrow> sim_price c = None \<Longrightarrow>
   attempt (sim_driver c) cur i (sim_at w tr d) =
     Some (Inl TypeError, sim_at (w + 5) (tr @ [FindTitles]) d)"
  by (simp add: attempt_def sim_read_noprice)

lemma attempt_count:
  assumes "attempt D cur i s = Some (r, s1)"
  shows "\<exists>tr. trace s1 = trace s @ tr \<and> count_list tr FindTitles = 1"
proof -
  from attempt_trace[OF assms] obtain tr where
    "trace s1 = trace s @ FindTitles # tr" "FindTitles \<notin> set tr"
    by (elim exE conjE) (rule that)
  then have "trace s1 = trace s @ (FindTitles # tr) \<and> count_list (FindTitles # tr) FindTitles = 1"
    by (simp add: count_list_0_iff)
  then show ?thesis by blast
qed

lemma ad_retries_count:
  "ad_retries D cur i n s = Some s1 \<Longrightarrow>
     \<exists>tr. trace s1 = trace s @ tr \<and> count_list tr FindTitles \<le> n
          \<and> (0 < n \<longrightarrow> 1 \<le> count_list tr FindTitles)"
proof (induction n arbitrary: s)
  case 0
  then show ?case by simp
next
  case (Suc n)
  from Suc.prems obtain r t where a: "attempt D cur i s = Some (r, t)"
    by (auto split: option.splits)
  from attempt_count[OF a] obtain tr where tr: "trace t = trace s @ tr" "count_list tr FindTitles = 1"
    by blast
  show ?case
  proof (cases "r = Inl StaleElementReference")
    case True
    with a Suc.prems have "ad_retries D cur i n (time_sleep D 1 t) = Some s1" by simp
    from Suc.IH[OF this] obtain tr' where
      "trace s1 = trace (time_sleep D 1 t) @ tr'" "count_list tr' FindTitles \<le> n" by blast
    with tr have "trace s1 = trace s @ (tr @ Sleep 1 # tr')
        \<and> count_list (tr @ Sleep 1 # tr') FindTitles \<le> Suc n
        \<and> 1 \<le> count_list (tr @ Sleep 1 # tr') FindTitles"
      by (simp add: sleep_eqs)
    then show ?thesis by blast
  next
    case False
    with a Suc.prems have "s1 = t" by (cases r) (auto split: if_splits)
    with tr show ?thesis by auto
  qed
qed

lemma for_ads_count:
  "for_ads D cur is s = Some s1 \<Longrightarrow>
     \<exists>tr. trace s1 = trace s @ tr \<and> length is \<le> count_list tr FindTitles
          \<and> count_list tr FindTitles \<le> 3 * length is"
proof (induction "is" arbitrary: s)
  case Nil
  then show ?case by simp
next
  case (Cons i "is")
  from Cons.prems obtain t where a: "ad_retries D cur i 3 s = Some t"
    and b: "for_ads D cur is t = Some s1"
    by (auto split: option.splits)
  from ad_retries_count[OF a] obtain tr where
    tr: "trace t = trace s @ tr" "count_list tr FindTitles \<le> 3" "1 \<le> count_list tr FindTitles"
    by auto
  from Cons.IH[OF b] obtain tr' where
    tr': "trace s1 = trace t @ tr'" "length is \<le> count_list tr' FindTitles"
      "count_list tr' FindTitles \<le> 3 * length is"
    by blast
  from tr tr' have "trace s1 = trace s @ (tr @ tr')
      \<and> length (i # is) \<le> count_list (tr @ tr') FindTitles
      \<and> count_list (tr @ tr') FindTitles \<le> 3 * length (i # is)"
    by simp
  then show ?case by blast
qed

text \<open>C7\<close>

theorem stale_retry_budget:
  "(ad_retries D cur i 3 s = Some s1 \<longrightarrow>
      (\<exists>tr. trace s1 = trace s @ tr \<and> 1 \<le> count_list tr FindTitles
            \<and> count_list tr FindTitles \<le> 3))
   \<and> (attempt D cur i s = Some (Inl StaleElementReference, s2) \<longrightarrow>
        ad_retries D cur i (Suc n) s = ad_retries D cur i n (time_sleep D 1 s2)
        \<and> ad_retries D cur i 1 s = Some (time_sleep D 1 s2))
   \<and> (attempt D cur i s = Some (Inl e, s3) \<and> e \<noteq> StaleElementReference \<longrightarrow>
        ad_retries D cur i (Suc n) s = Some s3)
   \<and> (for_ads D cur is s = Some s4 \<longrightarrow>
        (\<exists>tr. trace s4 = trace s @ tr \<and> length is \<le> count_list tr FindTitles
              \<and> count_list tr FindTitles \<le> 3 * length is))"
proof (intro conjI impI)
  assume "ad_retries D cur i 3 s = Some s1"
  from ad_retries_count[OF this]
  show "\<exists>tr. trace s1 = trace s @ tr \<and> 1 \<le> count_list tr FindTitles
            \<and> count_list tr FindTitles \<le> 3"
    by auto
next
  assume a: "attempt D cur i s = Some (Inl StaleElementReference, s2)"
  then show "ad_retries D cur i (Suc n) s = ad_retries D cur i n (time_sleep D 1 s2)"
    by simp
  from a show "ad_retries D cur i 1 s = Some (time_sleep D 1 s2)"
    by simp
next
  assume "attempt D cur i s = Some (Inl e, s3) \<and> e \<noteq> StaleElementReference"
  then show "ad_retries D cur i (Suc n) s = Some s3" by simp
next
  assume "for_ads D cur is s = Some s4"
  then show "\<exists>tr. trace s4 = trace s @ tr \<and> length is \<le> count_list tr FindTitles
              \<and> count_list tr FindTitles \<le> 3 * length is"
    by (rule for_ads_count)
qed

text \<open>C3\<close>

theorem price_checked_before_append:
  assumes "parse_page D s = Some (r, s1)" and "price_invariant s"
  shows "price_invariant s1"
  using assms by (rule parse_page_price)

text \<open>C4\<close>

theorem buffer_flushed_at_threshold:
  "(store_ad D cur ad s = (r, s1) \<and> 2000 \<le> length (data s) + 1 \<longrightarrow>
      data s1 = []
      \<and> (\<exists>tr. trace s1 = trace s @ WriteXml (region s) (data s @ [ad]) # tr))
   \<and> (ad_retries D cur i n s = Some s2 \<and> length (data s) \<le> 2000 \<longrightarrow>
        length (data s2) \<le> 2000)
   \<and> (parse_page D s = Some (r', s3) \<and> length (data s) \<le> 2000 \<longrightarrow>
        length (data s3) \<le> 2000)"
proof (intro conjI impI)
  assume a: "store_ad D cur ad s = (r, s1) \<and> 2000 \<le> length (data s) + 1"
  then have st: "store_ad D cur ad s = (r, s1)" and len: "1999 \<le> length (data s)" by simp_all
  from store_ad_result(1)[OF st] len show "data s1 = []" by simp
  from store_ad_result(2)[OF st] len
  show "\<exists>tr. trace s1 = trace s @ WriteXml (region s) (data s @ [ad]) # tr" by simp
next
  assume "ad_retries D cur i n s = Some s2 \<and> length (data s) \<le> 2000"
  then show "length (data s2) \<le> 2000" by (auto dest: ad_retries_length)
next
  assume "parse_page D s = Some (r', s3) \<and> length (data s) \<le> 2000"
  then show "length (data s3) \<le> 2000" by (auto dest: parse_page_length)
qed

text \<open>C6 amended\<close>

theorem back_to_list_after_success:
  "(attempt D cur i s = Some (Inr v, s1) \<longrightarrow>
      ad_retries D cur i (Suc n) s = Some s1
      \<and> (\<exists>tr. trace s1 = trace s @ tr @ [Open (Some cur), Sleep 1]))
   \<and> (attempt D cur i s = Some (Inl StaleElementReference, s2) \<longrightarrow>
        ad_retries D cur i 1 s = Some (time_sleep D 1 s2)
        \<and> trace (time_sleep D 1 s2) = trace s2 @ [Sleep 1])"
proof (intro conjI impI)
  assume a: "attempt D cur i s = Some (Inr v, s1)"
  then show "ad_retries D cur i (Suc n) s = Some s1" by simp
  from attempt_trace[OF a] obtain tr where
    t: "trace s1 = trace s @ FindTitles # tr"
    and u: "\<forall>w. Inr v = (Inr w :: exn + unit) \<longrightarrow> (\<exists>tr0. tr = tr0 @ [Open (Some cur), Sleep 1])"
    by (elim exE conjE) (rule that)
  from u obtain tr0 where "tr = tr0 @ [Open (Some cur), Sleep 1]"
    by (elim allE[of _ v] impE exE) (rule refl, rule that)
  with t have "trace s1 = trace s @ FindTitles # tr" "tr = tr0 @ [Open (Some cur), Sleep 1]"
    by simp_all
  then have "trace s1 = trace s @ (FindTitles # tr0) @ [Open (Some cur), Sleep 1]" by simp
  then show "\<exists>tr. trace s1 = trace s @ tr @ [Open (Some cur), Sleep 1]" by blast
next
  assume a: "attempt D cur i s = Some (Inl StaleElementReference, s2)"
  then show "ad_retries D cur i 1 s = Some (time_sleep D 1 s2)" by simp
  show "trace (time_sleep D 1 s2) = trace s2 @ [Sleep 1]" by (simp add: sleep_eqs)
qed

text \<open>C5 amended\<close>

theorem stop_observed_at_page_start:
  assumes "stop_requested D s"
  shows "parse_page D s = Some (Inr (), s)"
    and "page_loop L D n s = Some (Inr (), s)"
    and "paginator L D s = Some (Inr (), save_to_xml s)"
    and "trace (save_to_xml s) =
           trace s @ (if data s = [] then [] else [WriteXml (region s) (data s)])"
proof -
  from assms show "parse_page D s = Some (Inr (), s)" by (simp add: parse_page_def)
  from assms show pl: "page_loop L D n s = Some (Inr (), s)" for n by (cases n) simp_all
  show "paginator L D s = Some (Inr (), save_to_xml s)" by (simp add: paginator_def pl)
  show "trace (save_to_xml s) =
           trace s @ (if data s = [] then [] else [WriteXml (region s) (data s)])"
    by (simp add: save_to_xml_def emit_def)
qed

text \<open>C9\<close>

theorem fatal_error_flushes_buffer:
  assumes "get_url D s = Some s1" and "paginator L D s1 = Some (Inl e, s2)" and "data s2 \<noteq> []"
  shows "\<exists>s3. parse L D s = Some (Inr (), s3)
            \<and> trace s3 = trace s2 @ [WriteXml (region s2) (data s2), Quit]
            \<and> data s3 = data s2"
  using assms by (simp add: parse_def save_to_xml_def emit_def)

lemma sim_call_url:
  "call (drv_get_current_url (sim_driver c)) (sim_at w tr d) =
     (if sim_url_fails c w then Inl DriverError else Inr [0x6C], sim_at (w + 1) tr d)"
  by (simp add: prim_defs sim_driver_def sim_at_def)

lemma sim_find:
  "find_titles (sim_driver c) (sim_at w tr d) =
     (if sim_stale c w then Inl StaleElementReference else Inr [0..<sim_ads c],
      sim_at (w + 1) (tr @ [FindTitles]) d)"
  by (simp add: prim_defs sim_driver_def sim_at_def)

lemma sim_stop_requested: "stop_requested (sim_driver c) (sim_at w tr d) = sim_stop c w"
  by (simp add: prim_defs sim_driver_def sim_at_def)

lemma sim_open:
  "driver_open (sim_driver c) u (sim_at w tr d) = (Inr (), sim_at (w + 1) (tr @ [Open u]) d)"
  by (simp add: prim_defs sim_driver_def sim_at_def)

lemma sim_title:
  "call (drv_get_title (sim_driver c)) (sim_at w tr d) =
     (Inr (if sim_blocked c w then access_restricted else []), sim_at (w + 1) tr d)"
  by (simp add: prim_defs sim_driver_def sim_at_def)

lemma sim_wait:
  "call (drv_wait_titles (sim_driver c)) (sim_at w tr d) = (Inr (), sim_at (w + 1) tr d)"
  by (simp add: prim_defs sim_driver_def sim_at_def)

lemma sim_script:
  "call (drv_execute_script (sim_driver c)) (sim_at w tr d) = (Inr (), sim_at (w + 1) tr d)"
  by (simp add: prim_defs sim_driver_def sim_at_def)

lemma sim_randint:
  "random_randint (sim_driver c) lo hi (sim_at w tr d) =
     (lo + w mod (hi - lo + 1), sim_at (w + 1) tr d)"
  by (simp add: prim_defs sim_driver_def sim_at_def)

lemma sim_fields:
  "data (sim_at w tr d) = d" "trace (sim_at w tr d) = tr" "world (sim_at w tr d) = w"
  "region (sim_at w tr d) = None" "url (sim_at w tr d) = [0x62]"
  "base_url (sim_at w tr d) = [0x62]" "count (sim_at w tr d) = 2"
  by (simp_all add: sim_at_def)

lemma sim_plain_fields:
  "sim_ads sim_plain = 1" "sim_price sim_plain = Some [0x37]" "\<not> sim_blocked sim_plain w"
  "\<not> sim_stale sim_plain w" "\<not> sim_url_fails sim_plain w" "\<not> sim_stop sim_plain w"
  by (simp_all add: sim_plain_def)

lemma sim_plain_attempt:
  "length d < 1999 \<Longrightarrow>
   attempt (sim_driver sim_plain) cur 0 (sim_at w tr d) =
     Some (Inr (), sim_at (w + 10)
             (tr @ [FindTitles, Open (Some [0x64]), Sleep 2, Open (Some cur), Sleep 1])
             (d @ [sim_ad]))"
  by (rule sim_attempt_ok) (simp_all add: sim_plain_fields)

lemma sim_plain_retries:
  "length d < 1999 \<Longrightarrow>
   ad_retries (sim_driver sim_plain) cur 0 (Suc n) (sim_at w tr d) =
     Some (sim_at (w + 10)
             (tr @ [FindTitles, Open (Some [0x64]), Sleep 2, Open (Some cur), Sleep 1])
             (d @ [sim_ad]))"
  by (simp add: sim_plain_attempt)

lemma sim_plain_page:
  "parse_page (sim_driver sim_plain) (sim_at 0 [] []) =
     Some (Inr (), sim_at 12
             [FindTitles, FindTitles, Open (Some [0x64]), Sleep 2, Open (Some [0x6C]), Sleep 1]
             [sim_ad])"
  by (simp add: parse_page_def sim_stop_requested sim_call_url sim_find sim_plain_fields
        numeral_3_eq_3 sim_plain_attempt)

lemma price_ok_sim_ad: "price_ok sim_ad"
  by (simp add: price_ok_def sim_ad_def py_int_attr_def py_int_7)

theorem price_checked_before_append_witness:
  "price_invariant (sim_at 0 [] [])
   \<and> parse_page (sim_driver sim_plain) (sim_at 0 [] []) =
       Some (Inr (), sim_at 12
               [FindTitles, FindTitles, Open (Some [0x64]), Sleep 2, Open (Some [0x6C]), Sleep 1]
               [sim_ad])
   \<and> price_invariant (sim_at 12
               [FindTitles, FindTitles, Open (Some [0x64]), Sleep 2, Open (Some [0x6C]), Sleep 1]
               [sim_ad])"
proof -
  have a: "price_invariant (sim_at 0 [] [])"
    by (simp add: price_invariant_def sim_fields)
  from price_checked_before_append[OF sim_plain_page a] a sim_plain_page
  show ?thesis by simp
qed

end
